theory Spec2Isabelle
  imports Main "HOL-Library.Word"
begin

section \<open>Values shared by the whole package\<close>

type_synonym byte = "8 word"

text \<open>
  Go errors are interface values that the code only ever compares with \<open>nil\<close> and with
  the sentinel \<open>io.EOF\<close>.  The constructors keep apart where an error was made:
  \<open>Errorf\<close> is an error built by \<open>fmt.Errorf\<close> in this package (with its formatted
  message), the others come out of the operating system, a decompression library or
  \<open>archive/tar\<close>.
\<close>

datatype error =
    EOF
  | Errorf string
  | OsErr string
  | CodecErr string
  | TarErr string

section \<open>The \<open>path\<close> functions the package calls\<close>

text \<open>
  \<open>path.Ext\<close> walks from the end of the path towards the last slash and returns the
  suffix that starts at the first dot it meets, or the empty string.
\<close>

fun ext_scan :: "string \<Rightarrow> string \<Rightarrow> string" where
  "ext_scan [] acc = []"
| "ext_scan (c # cs) acc =
     (if c = CHR ''/'' then []
      else if c = CHR ''.'' then c # acc
      else ext_scan cs (c # acc))"

definition Ext :: "string \<Rightarrow> string" where
  "Ext p = ext_scan (rev p) []"

text \<open>
  \<open>path.Clean\<close>, by its documented rules, on the slash-separated elements of the path:
  empty elements and \<open>.\<close> are dropped, \<open>..\<close> removes the element before it (when that
  is not itself \<open>..\<close>), a \<open>..\<close> with nothing to remove is kept in a relative path and
  dropped in a rooted one; the empty result is \<open>.\<close>.
\<close>

fun splitSlash :: "string \<Rightarrow> string list" where
  "splitSlash [] = [[]]"
| "splitSlash (c # cs) =
     (if c = CHR ''/'' then [] # splitSlash cs
      else (case splitSlash cs of
              [] \<Rightarrow> [[c]]
            | e # es \<Rightarrow> (c # e) # es))"

fun cleanElems :: "bool \<Rightarrow> string list \<Rightarrow> string list \<Rightarrow> string list" where
  "cleanElems rooted [] out = rev out"
| "cleanElems rooted (e # es) out =
     (if e = [] \<or> e = ''.'' then cleanElems rooted es out
      else if e = ''..'' then
        (case out of
           [] \<Rightarrow> if rooted then cleanElems rooted es [] else cleanElems rooted es [''..'']
         | el # below \<Rightarrow>
             if el \<noteq> ''..'' then cleanElems rooted es below
             else if rooted then cleanElems rooted es out
             else cleanElems rooted es (''..'' # out))
      else cleanElems rooted es (e # out))"

fun joinSlash :: "string list \<Rightarrow> string" where
  "joinSlash [] = []"
| "joinSlash [e] = e"
| "joinSlash (e # f # es) = e @ CHR ''/'' # joinSlash (f # es)"

definition Clean :: "string \<Rightarrow> string" where
  "Clean p =
     (case p of
        [] \<Rightarrow> ''.''
      | c # _ \<Rightarrow>
          (let rooted = (c = CHR ''/'');
               out = cleanElems rooted (splitSlash p) []
           in if rooted then CHR ''/'' # joinSlash out
              else if out = [] then ''.''
              else joinSlash out))"

text \<open>
  \<open>path.Dir\<close> cleans what \<open>path.Split\<close> returns as the directory: the path up to and
  including its last slash.
\<close>

definition splitDir :: "string \<Rightarrow> string" where
  "splitDir p = rev (dropWhile (\<lambda>c. c \<noteq> CHR ''/'') (rev p))"

definition Dir :: "string \<Rightarrow> string" where
  "Dir p = Clean (splitDir p)"

section \<open>The entry scanner: \<open>archive/tar\<close> as the package uses it\<close>

text \<open>
  The package reads archives through \<open>tar.Reader\<close> only, with \<open>Next\<close> and \<open>Read\<close>.
  A decoded stream is the list of records it holds: an entry with its name, its body
  and, when the body is cut short in the stream, the error a reader meets where the
  bytes stop; or a header that the scanner rejects with an error.  The end of the list
  is the end marker.
\<close>

record header =
  Name :: string

datatype item =
    Entry string "byte list" "error option"
  | Damaged error

text \<open>
  A \<open>tar.Reader\<close>: the unread bytes of the current entry's body (\<open>cur\<close>) and the error
  waiting behind them (\<open>cur_fault\<close>), the records not yet scanned, and the error the
  reader keeps once one occurred (its field \<open>err\<close>; every later call returns it).
  \<open>seen\<close> is a log of the names \<open>Next\<close> has delivered; no operation reads it.
\<close>

record tar_reader =
  cur :: "byte list"
  cur_fault :: "error option"
  pending :: "item list"
  terr :: "error option"
  seen :: "string list"

definition NewReader :: "item list \<Rightarrow> tar_reader" where
  "NewReader r = \<lparr>cur = [], cur_fault = None, pending = r, terr = None, seen = []\<rparr>"

text \<open>
  \<open>Next\<close> skips what is left of the current body (which fails where the body is cut
  short), then reads the next header.  It returns either a header with a \<open>nil\<close> error
  (\<open>Inr\<close>) or a \<open>nil\<close> header with an error (\<open>Inl\<close>); the error is \<open>io.EOF\<close> at the
  end marker.
\<close>

definition tarNext :: "tar_reader \<Rightarrow> (error + header) \<times> tar_reader" where
  "tarNext rd =
     (case terr rd of
        Some e \<Rightarrow> (Inl e, rd)
      | None \<Rightarrow>
         (case cur_fault rd of
            Some e \<Rightarrow> (Inl e, rd\<lparr>cur := [], terr := Some e\<rparr>)
          | None \<Rightarrow>
             (case pending rd of
                [] \<Rightarrow> (Inl EOF, rd\<lparr>cur := [], terr := Some EOF\<rparr>)
              | Damaged e # rest \<Rightarrow>
                  (Inl e, rd\<lparr>cur := [], pending := rest, terr := Some e\<rparr>)
              | Entry n b f # rest \<Rightarrow>
                  (Inr \<lparr>Name = n\<rparr>,
                   rd\<lparr>cur := b, cur_fault := f, pending := rest,
                      seen := seen rd @ [n]\<rparr>))))"

text \<open>
  \<open>Read\<close> with a buffer of \<open>len\<close> bytes copies at most \<open>len\<close> bytes of the current
  body.  When nothing of the body is left after the copy it reports \<open>io.EOF\<close> together
  with the bytes (or the error of a body cut short); with a body left it reports
  \<open>nil\<close>.  The result is the bytes copied (their number is Go's \<open>n\<close>) and the error.
\<close>

definition tarRead :: "tar_reader \<Rightarrow> nat \<Rightarrow> (byte list \<times> error option) \<times> tar_reader" where
  "tarRead rd len =
     (case terr rd of
        Some e \<Rightarrow> (([], Some e), rd)
      | None \<Rightarrow>
         (let bs = take len (cur rd); rest = drop len (cur rd)
          in if rest = [] then
               (case cur_fault rd of
                  None \<Rightarrow> ((bs, Some EOF), rd\<lparr>cur := []\<rparr>)
                | Some e \<Rightarrow> ((bs, Some e), rd\<lparr>cur := [], terr := Some e\<rparr>))
             else ((bs, None), rd\<lparr>cur := rest\<rparr>)))"

text \<open>
  \<open>ioutil.ReadAll\<close> reads with a buffer of at least \<open>MinRead\<close> free bytes until an
  error; \<open>io.EOF\<close> is its success, any other error is returned with the bytes read so
  far.
\<close>

definition MinRead :: nat where
  "MinRead = 512"

function ReadAll :: "tar_reader \<Rightarrow> byte list \<Rightarrow> (byte list \<times> error option) \<times> tar_reader" where
  "ReadAll rd buf =
     (case tarRead rd MinRead of
        ((bs, None), rd') \<Rightarrow> ReadAll rd' (buf @ bs)
      | ((bs, Some e), rd') \<Rightarrow> ((buf @ bs, if e = EOF then None else Some e), rd'))"
  by pat_completeness auto
termination
  apply (relation "measure (\<lambda>(rd, buf). length (cur rd))")
   apply simp
  apply (auto simp: tarRead_def Let_def MinRead_def split: option.splits if_splits)
  done

declare ReadAll.simps [simp del]

section \<open>Reading one file out of an archive\<close>

text \<open>
  \<open>ReadFileFromTar\<close>: the loop over \<open>tr.Next()\<close>.  \<open>scanFor\<close> is the loop with the
  reader as its state; it returns the reader too, so that what the scan consumed can be
  stated.
\<close>

definition notFound :: "string \<Rightarrow> error" where
  "notFound file = Errorf (''file '' @ [CHR 0x27] @ file @ [CHR 0x27] @ '' not found'')"

function scanFor :: "tar_reader \<Rightarrow> string \<Rightarrow> (error + byte list) \<times> tar_reader" where
  "scanFor rd file =
     (case tarNext rd of
        (Inl e, rd1) \<Rightarrow>
          if e = EOF then (Inl (notFound file), rd1) else (Inl e, rd1)
      | (Inr h, rd1) \<Rightarrow>
          if Name h = file then
            (case ReadAll rd1 [] of
               ((bytes, Some e), rd2) \<Rightarrow> (Inl e, rd2)
             | ((bytes, None), rd2) \<Rightarrow> (Inr bytes, rd2))
          else scanFor rd1 file)"
  by pat_completeness auto
termination
  apply (relation "measure (\<lambda>(rd, file). length (pending rd))")
   apply simp
  apply (auto simp: tarNext_def split: option.splits list.splits item.splits)
  done

declare scanFor.simps [simp del]

definition ReadFileFromTar :: "item list \<Rightarrow> string \<Rightarrow> error + byte list" where
  "ReadFileFromTar r file = fst (scanFor (NewReader r) file)"

text \<open>
  What the theorems say about archives: an entry is \<open>intact\<close> when its body is whole,
  and \<open>entry_names\<close> lists the names of the entries of a stream in order.
\<close>

definition intact :: "item \<Rightarrow> bool" where
  "intact it = (case it of Entry n b f \<Rightarrow> f = None | Damaged e \<Rightarrow> False)"

fun entry_names :: "item list \<Rightarrow> string list" where
  "entry_names [] = []"
| "entry_names (Entry n b f # its) = n # entry_names its"
| "entry_names (Damaged e # its) = entry_names its"

section \<open>The decompressor\<close>

text \<open>
  The operating system as \<open>NewDecompressor\<close> and \<open>Close\<close> see it: the files that can be
  opened with their bytes, and the descriptors that are open.  \<open>os.Open\<close> hands out a
  fresh descriptor; \<open>File.Close\<close> releases it and fails on a file that is not open.
\<close>

record os_file =
  fd :: nat
  content :: "byte list"

record world =
  disk :: "(string \<times> byte list) list"
  opened :: "nat list"
  next_fd :: nat

definition osOpen :: "world \<Rightarrow> string \<Rightarrow> (error + os_file) \<times> world" where
  "osOpen w p =
     (case map_of (disk w) p of
        None \<Rightarrow> (Inl (OsErr p), w)
      | Some bytes \<Rightarrow>
          (Inr \<lparr>fd = next_fd w, content = bytes\<rparr>,
           w\<lparr>opened := next_fd w # opened w, next_fd := Suc (next_fd w)\<rparr>))"

definition fileClose :: "os_file \<Rightarrow> world \<Rightarrow> error option \<times> world" where
  "fileClose f w =
     (if fd f \<in> set (opened w)
      then (None, w\<lparr>opened := removeAll (fd f) (opened w)\<rparr>)
      else (Some (OsErr ''file already closed''), w))"

text \<open>
  A decompression stream (\<open>*gzip.Reader\<close>, \<open>*lzma.Reader\<close>) over a file.  Its \<open>Close\<close>
  does not close the file under it; \<open>close_err\<close> is what that \<open>Close\<close> returns.  The
  constructors of the two libraries are parameters of the model: each looks at the file
  and returns a stream or the error it rejects the header with.
\<close>

record codec =
  source :: os_file
  close_err :: "error option"

record codecs =
  lzma_NewReader :: "os_file \<Rightarrow> error + codec"
  gzip_NewReader :: "os_file \<Rightarrow> error + codec"

datatype stream =
    FileStream os_file
  | CodecStream codec
  | Bzip2Stream os_file

text \<open>The struct \<open>Decompressor\<close>; a \<open>nil\<close> closer is \<open>None\<close>.\<close>

record Decompressor =
  d_file :: os_file
  d_reader :: stream
  d_closer :: "codec option"

definition NewDecompressor ::
  "codecs \<Rightarrow> string \<Rightarrow> world \<Rightarrow> (error + Decompressor) \<times> world" where
  "NewDecompressor lib filepath w =
     (case osOpen w filepath of
        (Inl e, w1) \<Rightarrow> (Inl e, w1)
      | (Inr f, w1) \<Rightarrow>
          if Ext filepath = ''.xz'' then
            (case lzma_NewReader lib f of
               Inl e \<Rightarrow> (Inl e, w1)
             | Inr xz \<Rightarrow>
                 (Inr \<lparr>d_file = f, d_reader = CodecStream xz, d_closer = Some xz\<rparr>, w1))
          else if Ext filepath = ''.gz'' then
            (case gzip_NewReader lib f of
               Inl e \<Rightarrow> (Inl e, w1)
             | Inr gz \<Rightarrow>
                 (Inr \<lparr>d_file = f, d_reader = CodecStream gz, d_closer = Some gz\<rparr>, w1))
          else if Ext filepath = ''.bz2'' then
            (Inr \<lparr>d_file = f, d_reader = Bzip2Stream f, d_closer = None\<rparr>, w1)
          else if Ext filepath = ''.tar'' then
            (Inr \<lparr>d_file = f, d_reader = FileStream f, d_closer = None\<rparr>, w1)
          else (Inl (Errorf ''unknown file format''), w1))"

definition Close :: "Decompressor \<Rightarrow> world \<Rightarrow> error option \<times> world" where
  "Close d w =
     (case d_closer d of
        None \<Rightarrow> fileClose (d_file d) w
      | Some c \<Rightarrow>
          (case close_err c of
             Some e \<Rightarrow> (Some e, w)
           | None \<Rightarrow> fileClose (d_file d) w))"

section \<open>The directory reader\<close>

text \<open>
  A \<open>*tar.Reader\<close> is a pointer: several variables may name one reader, and a call
  through any of them changes it for all.  The readers live in a store indexed by
  address.  The pointers the caller passes in are taken to be non-nil, as
  \<open>tar.NewReader\<close> returns them; the field \<open>hdr\<close> is \<open>nil\<close> whenever \<open>Next\<close> returned
  no header, so it is an option, and reading \<open>dr.hdr.Name\<close> through a \<open>nil\<close> header is
  the outcome \<open>NilDeref\<close> (the Go runtime panics).
\<close>

type_synonym addr = nat

type_synonym store = "addr \<Rightarrow> tar_reader"

datatype 'a outcome = Returns 'a | NilDeref

record dirReader =
  tr :: addr
  hdr :: "header option"
  base :: string
  err :: "error option"

definition DirReader :: "addr \<Rightarrow> header \<Rightarrow> store \<Rightarrow> dirReader \<times> store" where
  "DirReader t dirHeader s =
     (case tarNext (s t) of
        (Inl e, rd) \<Rightarrow>
          (\<lparr>tr = t, hdr = None, base = Clean (Name dirHeader), err = Some e\<rparr>, s(t := rd))
      | (Inr h, rd) \<Rightarrow>
          (\<lparr>tr = t, hdr = Some h, base = Clean (Name dirHeader), err = None\<rparr>, s(t := rd)))"

text \<open>
  The loop of \<open>Read\<close>.  The source reads the body with \<open>tr.Read(b)\<close>: the identifier
  \<open>tr\<close> there is not the field \<open>dr.tr\<close>, and the method has no parameter or local of
  that name, so it is a variable of the package; no file of the package declares it, and
  the model takes the reader it points to as the parameter \<open>pkg_tr\<close>.  The advance is
  \<open>dr.tr.Next()\<close>, on the reader's own scanner.  \<open>len\<close> is the length of the buffer.
\<close>

function readLoop ::
  "addr \<Rightarrow> dirReader \<Rightarrow> nat \<Rightarrow> store
     \<Rightarrow> (byte list \<times> error option) outcome \<times> dirReader \<times> store" where
  "readLoop pkg_tr dr len s =
     (case hdr dr of
        None \<Rightarrow> (NilDeref, dr, s)
      | Some h \<Rightarrow>
          if Dir (Name h) \<noteq> base dr then (Returns ([], Some EOF), dr, s)
          else
            (case tarRead (s pkg_tr) len of
               ((bs, e), rd) \<Rightarrow>
                 (let s1 = s(pkg_tr := rd) in
                  if bs \<noteq> [] then
                    (Returns (bs, if e = Some EOF then None else e), dr, s1)
                  else if e \<noteq> Some EOF then (Returns ([], e), dr, s1)
                  else
                    (case tarNext (s1 (tr dr)) of
                       (Inl e', rd') \<Rightarrow>
                         (Returns ([], Some e'), dr\<lparr>hdr := None\<rparr>, s1(tr dr := rd'))
                     | (Inr h', rd') \<Rightarrow>
                         readLoop pkg_tr (dr\<lparr>hdr := Some h'\<rparr>) len (s1(tr dr := rd'))))))"
  by pat_completeness auto
termination
  apply (relation "measure (\<lambda>(pkg_tr, dr, len, s). length (pending (s (tr dr))))")
   apply simp
  apply (auto simp: tarRead_def tarNext_def Let_def
              split: option.splits list.splits item.splits if_splits)
  done

declare readLoop.simps [simp del]

definition Read ::
  "addr \<Rightarrow> dirReader \<Rightarrow> nat \<Rightarrow> store
     \<Rightarrow> (byte list \<times> error option) outcome \<times> dirReader \<times> store" where
  "Read pkg_tr dr len s =
     (case err dr of
        Some e \<Rightarrow> (Returns ([], Some e), dr\<lparr>err := None\<rparr>, s)
      | None \<Rightarrow> readLoop pkg_tr dr len s)"

text \<open>
  A caller's consecutive calls of \<open>Read\<close>, one per buffer length of the list, on the
  state the call before left.  A panic ends the program: no call follows it.
\<close>

fun Reads ::
  "addr \<Rightarrow> dirReader \<Rightarrow> store \<Rightarrow> nat list
     \<Rightarrow> (byte list \<times> error option) outcome list \<times> dirReader \<times> store" where
  "Reads pkg_tr dr s [] = ([], dr, s)"
| "Reads pkg_tr dr s (len # lens) =
     (case Read pkg_tr dr len s of
        (NilDeref, dr', s') \<Rightarrow> ([NilDeref], dr', s')
      | (Returns r, dr', s') \<Rightarrow>
          (case Reads pkg_tr dr' s' lens of
             (rs, dr'', s'') \<Rightarrow> (Returns r # rs, dr'', s'')))"

text \<open>
  A caller that reads the stream to its end, as \<open>ioutil.ReadAll\<close> and \<open>io.Copy\<close> do:
  \<open>Read\<close> with a buffer of \<open>len\<close> bytes until a call returns an error, \<open>io.EOF\<close>
  included, collecting the bytes.  With an empty buffer the calls can go on for ever, so
  the number of calls is bounded by \<open>fuel\<close>; \<open>None\<close> is running out of it.
\<close>

fun readToEnd ::
  "nat \<Rightarrow> addr \<Rightarrow> dirReader \<Rightarrow> nat \<Rightarrow> store \<Rightarrow> byte list
     \<Rightarrow> ((byte list \<times> error) outcome \<times> dirReader \<times> store) option" where
  "readToEnd 0 pkg_tr dr len s acc = None"
| "readToEnd (Suc fuel) pkg_tr dr len s acc =
     (case Read pkg_tr dr len s of
        (NilDeref, dr', s') \<Rightarrow> Some (NilDeref, dr', s')
      | (Returns (bs, None), dr', s') \<Rightarrow> readToEnd fuel pkg_tr dr' len s' (acc @ bs)
      | (Returns (bs, Some e), dr', s') \<Rightarrow> Some (Returns (acc @ bs, e), dr', s'))"

text \<open>
  What the theorems say about the stream of a directory \<open>b\<close>.  \<open>dir_bytes\<close> is the
  concatenation of the bodies of the entries at the head of a list of records whose
  parent path is \<open>b\<close>, up to the first record that is not such an entry; \<open>dir_run_ok\<close>
  holds when those entries are intact and the run ends at the end marker or at an entry
  of another directory.  A reader is \<open>positioned\<close> on the scanner at address \<open>t\<close> when
  that is its scanner, no error is pending in either, and its current entry lies in
  its directory; \<open>rest_bytes\<close> is then what is left of the stream.
\<close>

fun dir_bytes :: "string \<Rightarrow> item list \<Rightarrow> byte list" where
  "dir_bytes b [] = []"
| "dir_bytes b (Entry n body f # its) = (if Dir n = b then body @ dir_bytes b its else [])"
| "dir_bytes b (Damaged e # its) = []"

fun dir_run_ok :: "string \<Rightarrow> item list \<Rightarrow> bool" where
  "dir_run_ok b [] = True"
| "dir_run_ok b (Entry n body f # its) = (if Dir n = b then f = None \<and> dir_run_ok b its else True)"
| "dir_run_ok b (Damaged e # its) = False"

definition positioned :: "addr \<Rightarrow> dirReader \<Rightarrow> store \<Rightarrow> bool" where
  "positioned t dr s =
     (tr dr = t \<and> err dr = None \<and> terr (s t) = None \<and> cur_fault (s t) = None
      \<and> (case hdr dr of None \<Rightarrow> False | Some h \<Rightarrow> Dir (Name h) = base dr)
      \<and> dir_run_ok (base dr) (pending (s t)))"

definition rest_bytes :: "addr \<Rightarrow> dirReader \<Rightarrow> store \<Rightarrow> byte list" where
  "rest_bytes t dr s = cur (s t) @ dir_bytes (base dr) (pending (s t))"

section \<open>The scan for one file\<close>

text \<open>
  \<open>ReadAll\<close> on a reader without a pending error and with a whole current body returns
  that body and leaves nothing of it unread.
\<close>

lemma ReadAll_intact:
  "terr rd = None \<Longrightarrow> cur_fault rd = None \<Longrightarrow>
   ReadAll rd buf = ((buf @ cur rd, None), rd\<lparr>cur := []\<rparr>)"
proof (induction rd buf rule: ReadAll.induct)
  case (1 rd buf)
  show ?case
  proof (cases "drop MinRead (cur rd) = []")
    case True
    then show ?thesis using "1.prems"
      by (subst ReadAll.simps) (simp add: tarRead_def)
  next
    case False
    let ?rd' = "rd\<lparr>cur := drop MinRead (cur rd)\<rparr>"
    have step: "tarRead rd MinRead = ((take MinRead (cur rd), None), ?rd')"
      using False "1.prems" by (simp add: tarRead_def)
    have "ReadAll ?rd' (buf @ take MinRead (cur rd)) =
            (((buf @ take MinRead (cur rd)) @ cur ?rd', None), ?rd'\<lparr>cur := []\<rparr>)"
      using "1.IH"[OF step[symmetric] refl refl] "1.prems" by simp
    then show ?thesis
      by (subst ReadAll.simps) (simp add: step)
  qed
qed

text \<open>
  The scan passes intact entries of other names and stops at the first entry of the
  name it looks for, with the records behind it still unscanned.
\<close>

lemma scanFor_finds:
  "terr rd = None \<Longrightarrow> cur_fault rd = None \<Longrightarrow>
   pending rd = pre @ Entry file body None # post \<Longrightarrow>
   list_all intact pre \<Longrightarrow> file \<notin> set (entry_names pre) \<Longrightarrow>
   scanFor rd file =
     (Inr body, rd\<lparr>cur := [], pending := post, seen := seen rd @ entry_names pre @ [file]\<rparr>)"
proof (induction pre arbitrary: rd)
  case Nil
  then show ?case
    by (subst scanFor.simps) (simp add: tarNext_def ReadAll_intact)
next
  case (Cons it pre)
  from Cons.prems obtain n b where it: "it = Entry n b None" "n \<noteq> file"
    by (cases it) (auto simp: intact_def)
  let ?rd1 = "rd\<lparr>cur := b, cur_fault := None, pending := pre @ Entry file body None # post,
                  seen := seen rd @ [n]\<rparr>"
  have nx: "tarNext rd = (Inr \<lparr>Name = n\<rparr>, ?rd1)"
    using Cons.prems it by (simp add: tarNext_def)
  have "scanFor ?rd1 file =
     (Inr body, ?rd1\<lparr>cur := [], pending := post, seen := seen ?rd1 @ entry_names pre @ [file]\<rparr>)"
    using Cons.prems it by (intro Cons.IH) simp_all
  then show ?case using it Cons.prems(2)
    by (subst scanFor.simps) (simp add: nx)
qed

text \<open>A scan that meets only intact entries of other names ends at the end marker.\<close>

lemma scanFor_absent:
  "terr rd = None \<Longrightarrow> cur_fault rd = None \<Longrightarrow> pending rd = its \<Longrightarrow>
   list_all intact its \<Longrightarrow> file \<notin> set (entry_names its) \<Longrightarrow>
   scanFor rd file =
     (Inl (notFound file),
      rd\<lparr>cur := [], pending := [], terr := Some EOF, seen := seen rd @ entry_names its\<rparr>)"
proof (induction its arbitrary: rd)
  case Nil
  then show ?case
    by (subst scanFor.simps) (simp add: tarNext_def)
next
  case (Cons it rest)
  from Cons.prems obtain n b where it: "it = Entry n b None" "n \<noteq> file"
    by (cases it) (auto simp: intact_def)
  let ?rd1 = "rd\<lparr>cur := b, cur_fault := None, pending := rest, seen := seen rd @ [n]\<rparr>"
  have nx: "tarNext rd = (Inr \<lparr>Name = n\<rparr>, ?rd1)"
    using Cons.prems it by (simp add: tarNext_def)
  have "scanFor ?rd1 file =
     (Inl (notFound file),
      ?rd1\<lparr>cur := [], pending := [], terr := Some EOF, seen := seen ?rd1 @ entry_names rest\<rparr>)"
    using Cons.prems it by (intro Cons.IH) simp_all
  then show ?case using it Cons.prems(2)
    by (subst scanFor.simps) (simp add: nx)
qed

text \<open>
  Claim C5.  In an archive whose entry \<open>k\<close> has the name \<open>file\<close>, with the entries
  before it intact and of other names (\<open>pre\<close>, so \<open>k = length pre + 1\<close>), and any
  records \<open>post\<close> behind it, \<open>ReadFileFromTar\<close> returns exactly the body stored at entry
  \<open>k\<close>.  The scanner has delivered the headers of entries \<open>1..k\<close> and no other, and
  the records behind entry \<open>k\<close> are all still unscanned.
\<close>

theorem ReadFileFromTar_found:
  assumes "list_all intact pre" and "file \<notin> set (entry_names pre)"
  shows "ReadFileFromTar (pre @ Entry file body None # post) file = Inr body
       \<and> seen (snd (scanFor (NewReader (pre @ Entry file body None # post)) file))
           = entry_names pre @ [file]
       \<and> pending (snd (scanFor (NewReader (pre @ Entry file body None # post)) file)) = post"
  using scanFor_finds[of "NewReader (pre @ Entry file body None # post)" pre "file" body post] assms
  by (simp add: ReadFileFromTar_def NewReader_def)

theorem ReadFileFromTar_found_witness:
  "list_all intact [Entry ''x'' [1, 2] None, Entry ''dir/y'' [] None]
   \<and> ''y'' \<notin> set (entry_names [Entry ''x'' [1, 2] None, Entry ''dir/y'' [] None])
   \<and> ReadFileFromTar ([Entry ''x'' [1, 2] None, Entry ''dir/y'' [] None] @
          Entry ''y'' [7, 8, 9] None # [Damaged (TarErr ''bad header''), Entry ''y'' [0] None]) ''y''
       = Inr [7, 8, 9]"
  using ReadFileFromTar_found[of "[Entry ''x'' [1, 2] None, Entry ''dir/y'' [] None]" "''y''"
      "[7, 8, 9]" "[Damaged (TarErr ''bad header''), Entry ''y'' [0] None]"]
  by (simp add: intact_def)

text \<open>
  Claim C9.  In an archive of intact entries none of which has the name \<open>file\<close>,
  \<open>ReadFileFromTar\<close> scans every entry up to the end marker and fails with the error
  \<open>file 'NAME' not found\<close> that names the target; the error is the one the package
  makes itself, not an error of the scanner.
\<close>

theorem ReadFileFromTar_absent:
  assumes "list_all intact r" and "file \<notin> set (entry_names r)"
  shows "ReadFileFromTar r file = Inl (notFound file)
       \<and> seen (snd (scanFor (NewReader r) file)) = entry_names r
       \<and> pending (snd (scanFor (NewReader r) file)) = []
       \<and> (\<forall>m. ReadFileFromTar r file \<noteq> Inl (TarErr m))"
  using scanFor_absent[of "NewReader r" r "file"] assms
  by (simp add: ReadFileFromTar_def NewReader_def notFound_def)

theorem ReadFileFromTar_absent_witness:
  "list_all intact [Entry ''a'' [1] None, Entry ''b'' [] None]
   \<and> ''c'' \<notin> set (entry_names [Entry ''a'' [1] None, Entry ''b'' [] None])
   \<and> ReadFileFromTar [Entry ''a'' [1] None, Entry ''b'' [] None] ''c''
       = Inl (Errorf (''file '' @ [CHR 0x27] @ ''c'' @ [CHR 0x27] @ '' not found''))
   \<and> seen (snd (scanFor (NewReader [Entry ''a'' [1] None, Entry ''b'' [] None]) ''c'')) = [''a'', ''b'']"
  using ReadFileFromTar_absent[of "[Entry ''a'' [1] None, Entry ''b'' [] None]" "''c''"]
  by (simp add: intact_def notFound_def)

section \<open>Releasing the file\<close>

text \<open>
  When the inner stream's \<open>Close\<close> fails, \<open>Decompressor.Close\<close> returns that error and
  leaves the operating system as it was.
\<close>

lemma Close_inner_error:
  "d_closer d = Some c \<Longrightarrow> close_err c = Some e \<Longrightarrow> Close d w = (Some e, w)"
  by (simp add: Close_def)

text \<open>
  Whatever \<open>NewDecompressor\<close> returns, once \<open>os.Open\<close> has succeeded the file it
  opened is still open when the function returns.
\<close>

lemma NewDecompressor_keeps_file_open:
  "osOpen w filepath = (Inr f, w1) \<Longrightarrow>
   snd (NewDecompressor lib filepath w) = w1 \<and> fd f \<in> set (opened w1)"
  by (auto simp: NewDecompressor_def osOpen_def split: option.splits sum.splits)

text \<open>
  Claim C1 says that \<open>Close\<close> still closes the base file when the inner stream's close
  fails.  The code returns the inner error before it reaches \<open>d.file.Close()\<close>: on a
  decompressor over the open descriptor 3 whose gzip stream fails to close, \<open>Close\<close>
  returns the stream's error and descriptor 3 is still open.
\<close>

theorem Close_leaves_file_open_on_inner_error:
  "Close \<lparr>d_file = \<lparr>fd = 3, content = [0x1f, 0x8b]\<rparr>,
          d_reader = CodecStream \<lparr>source = \<lparr>fd = 3, content = [0x1f, 0x8b]\<rparr>,
                                  close_err = Some (CodecErr ''gzip: invalid checksum'')\<rparr>,
          d_closer = Some \<lparr>source = \<lparr>fd = 3, content = [0x1f, 0x8b]\<rparr>,
                           close_err = Some (CodecErr ''gzip: invalid checksum'')\<rparr>\<rparr>
         \<lparr>disk = [(''a.tar.gz'', [0x1f, 0x8b])], opened = [3], next_fd = 4\<rparr>
   = (Some (CodecErr ''gzip: invalid checksum''),
      \<lparr>disk = [(''a.tar.gz'', [0x1f, 0x8b])], opened = [3], next_fd = 4\<rparr>)"
  by (simp add: Close_def)

text \<open>
  Claim C2 says that \<open>NewDecompressor\<close> releases the base file when the construction of
  the decompression stream fails.  The code returns the construction error with the file
  open, and returns no decompressor through which it could be closed: for \<open>a.tar.gz\<close>
  with a header that gzip rejects, descriptor 3 is open after the call.
\<close>

theorem NewDecompressor_leaks_file_on_codec_error:
  "NewDecompressor
     \<lparr>lzma_NewReader = (\<lambda>f. Inl (CodecErr ''lzma: bad magic'')),
      gzip_NewReader = (\<lambda>f. Inl (CodecErr ''gzip: invalid header''))\<rparr>
     ''a.tar.gz''
     \<lparr>disk = [(''a.tar.gz'', [0, 0])], opened = [], next_fd = 3\<rparr>
   = (Inl (CodecErr ''gzip: invalid header''),
      \<lparr>disk = [(''a.tar.gz'', [0, 0])], opened = [3], next_fd = 4\<rparr>)"
  by (simp add: NewDecompressor_def osOpen_def Ext_def)

section \<open>Reading a directory as one stream\<close>

lemma readLoop_nil_header:
  "hdr dr = None \<Longrightarrow> readLoop p dr len s = (NilDeref, dr, s)"
  by (subst readLoop.simps) simp

lemma readLoop_outside:
  "hdr dr = Some h \<Longrightarrow> Dir (Name h) \<noteq> base dr \<Longrightarrow>
   readLoop p dr len s = (Returns ([], Some EOF), dr, s)"
  by (subst readLoop.simps) simp

text \<open>The loop never touches the deferred error; a call of \<open>Read\<close> leaves none.\<close>

lemma readLoop_keeps_err:
  "readLoop p dr len s = (r, dr', s') \<Longrightarrow> err dr' = err dr"
proof (induction p dr len s rule: readLoop.induct)
  case (1 p dr len s)
  from "1.prems" show ?case
    apply (subst (asm) readLoop.simps)
    apply (auto simp: Let_def simp del: fun_upd_apply
                split: option.splits if_splits prod.splits sum.splits
                dest!: "1.IH"[rotated -1])
    done
qed

lemma Read_leaves_no_error:
  "Read p dr len s = (r, dr', s') \<Longrightarrow> err dr' = None"
  by (auto simp: Read_def split: option.splits dest: readLoop_keeps_err)

text \<open>
  Without a deferred error and without a current header the next call dereferences the
  \<open>nil\<close> header; with a current entry outside the directory every call returns
  \<open>io.EOF\<close> and changes nothing.
\<close>

lemma Reads_nil_header:
  "err dr = None \<Longrightarrow> hdr dr = None \<Longrightarrow>
   Reads p dr s lens = (if lens = [] then [] else [NilDeref], dr, s)"
  by (cases lens) (simp_all add: Read_def readLoop_nil_header)

lemma Reads_outside:
  "err dr = None \<Longrightarrow> hdr dr = Some h \<Longrightarrow> Dir (Name h) \<noteq> base dr \<Longrightarrow>
   Reads p dr s lens = (replicate (length lens) (Returns ([], Some EOF)), dr, s)"
  by (induction lens) (simp_all add: Read_def readLoop_outside)

text \<open>
  Claim C8.  Once a call of \<open>Read\<close> has returned \<open>io.EOF\<close> with the current entry
  outside the target directory, every further call, with any buffer, returns no bytes and
  \<open>io.EOF\<close>, and leaves the reader and the scanners as they were: however many calls
  follow, each of them returns end-of-stream.
\<close>

theorem Read_exhausted_is_terminal:
  assumes "Read p dr0 len0 s0 = (Returns ([], Some EOF), dr, s)"
    and "hdr dr = Some h" and "Dir (Name h) \<noteq> base dr"
  shows "Reads p dr s lens = (replicate (length lens) (Returns ([], Some EOF)), dr, s)"
  using Reads_outside[OF Read_leaves_no_error[OF assms(1)] assms(2,3)] .

theorem Read_exhausted_is_terminal_witness:
  "Read 0 \<lparr>tr = 0, hdr = Some \<lparr>Name = ''other/c''\<rparr>, base = ''dir'', err = None\<rparr> 4
        (\<lambda>a. NewReader [])
     = (Returns ([], Some EOF),
        \<lparr>tr = 0, hdr = Some \<lparr>Name = ''other/c''\<rparr>, base = ''dir'', err = None\<rparr>,
        (\<lambda>a. NewReader []))
   \<and> hdr \<lparr>tr = 0, hdr = Some \<lparr>Name = ''other/c''\<rparr>, base = ''dir'', err = None\<rparr>
       = Some \<lparr>Name = ''other/c''\<rparr>
   \<and> Dir (Name \<lparr>Name = ''other/c''\<rparr>)
       \<noteq> base \<lparr>tr = 0, hdr = Some \<lparr>Name = ''other/c''\<rparr>, base = ''dir'', err = None\<rparr>
   \<and> fst (Reads 0 \<lparr>tr = 0, hdr = Some \<lparr>Name = ''other/c''\<rparr>, base = ''dir'', err = None\<rparr>
             (\<lambda>a. NewReader []) [4, 0, 7])
       = [Returns ([], Some EOF), Returns ([], Some EOF), Returns ([], Some EOF)]"
proof -
  have a: "Read 0 \<lparr>tr = 0, hdr = Some \<lparr>Name = ''other/c''\<rparr>, base = ''dir'', err = None\<rparr> 4
        (\<lambda>a. NewReader [])
     = (Returns ([], Some EOF),
        \<lparr>tr = 0, hdr = Some \<lparr>Name = ''other/c''\<rparr>, base = ''dir'', err = None\<rparr>,
        (\<lambda>a. NewReader []))"
    by (simp add: Read_def readLoop_outside Dir_def Clean_def splitDir_def)
  have b: "hdr \<lparr>tr = 0, hdr = Some \<lparr>Name = ''other/c''\<rparr>, base = ''dir'', err = None\<rparr>
       = Some \<lparr>Name = ''other/c''\<rparr>" by simp
  have c: "Dir (Name \<lparr>Name = ''other/c''\<rparr>)
       \<noteq> base \<lparr>tr = 0, hdr = Some \<lparr>Name = ''other/c''\<rparr>, base = ''dir'', err = None\<rparr>"
    by code_simp
  show ?thesis
    using Read_exhausted_is_terminal[OF a b c, of "[4, 0, 7]"] a b c by simp
qed

text \<open>
  Claim C6.  When the advance of the scanner inside \<open>DirReader\<close> fails with \<open>e\<close>, the
  constructor still returns a reader, holding \<open>e\<close> as its deferred error.  The first
  \<open>Read\<close> returns no bytes and \<open>e\<close> and clears the deferred error.  No later call
  returns \<open>e\<close> again: the reader has no current header, and the call after the first
  ends in the dereference of that \<open>nil\<close> header.
\<close>

theorem DirReader_defers_error_once:
  assumes "tarNext (s t) = (Inl e, rd)"
  shows "DirReader t dirHeader s =
           (\<lparr>tr = t, hdr = None, base = Clean (Name dirHeader), err = Some e\<rparr>, s(t := rd))
       \<and> Read p (fst (DirReader t dirHeader s)) len (snd (DirReader t dirHeader s)) =
           (Returns ([], Some e),
            \<lparr>tr = t, hdr = None, base = Clean (Name dirHeader), err = None\<rparr>, s(t := rd))
       \<and> (\<forall>lens. fst (Reads p \<lparr>tr = t, hdr = None, base = Clean (Name dirHeader), err = None\<rparr>
                          (s(t := rd)) lens) = (if lens = [] then [] else [NilDeref]))
       \<and> (\<forall>lens bs. Returns (bs, Some e) \<notin>
             set (fst (Reads p \<lparr>tr = t, hdr = None, base = Clean (Name dirHeader), err = None\<rparr>
                          (s(t := rd)) lens)))"
proof -
  have c: "DirReader t dirHeader s =
           (\<lparr>tr = t, hdr = None, base = Clean (Name dirHeader), err = Some e\<rparr>, s(t := rd))"
    using assms by (simp add: DirReader_def)
  have r: "\<And>lens. Reads p \<lparr>tr = t, hdr = None, base = Clean (Name dirHeader), err = None\<rparr>
                          (s(t := rd)) lens = (if lens = [] then [] else [NilDeref],
             \<lparr>tr = t, hdr = None, base = Clean (Name dirHeader), err = None\<rparr>, s(t := rd))"
    by (rule Reads_nil_header) simp_all
  show ?thesis
    by (simp add: c r Read_def)
qed

theorem DirReader_defers_error_once_witness:
  "tarNext (((\<lambda>a. NewReader [])(0 := NewReader [Damaged (TarErr ''bad header'')])) 0)
     = (Inl (TarErr ''bad header''),
        \<lparr>cur = [], cur_fault = None, pending = [], terr = Some (TarErr ''bad header''), seen = []\<rparr>)
   \<and> fst (DirReader 0 \<lparr>Name = ''dir/''\<rparr>
             ((\<lambda>a. NewReader [])(0 := NewReader [Damaged (TarErr ''bad header'')])))
       = \<lparr>tr = 0, hdr = None, base = ''dir'', err = Some (TarErr ''bad header'')\<rparr>
   \<and> fst (Read 0 (fst (DirReader 0 \<lparr>Name = ''dir/''\<rparr>
             ((\<lambda>a. NewReader [])(0 := NewReader [Damaged (TarErr ''bad header'')]))))
          4 (snd (DirReader 0 \<lparr>Name = ''dir/''\<rparr>
             ((\<lambda>a. NewReader [])(0 := NewReader [Damaged (TarErr ''bad header'')])))))
       = Returns ([], Some (TarErr ''bad header''))"
proof -
  have a: "tarNext (((\<lambda>a. NewReader [])(0 := NewReader [Damaged (TarErr ''bad header'')])) 0)
     = (Inl (TarErr ''bad header''),
        \<lparr>cur = [], cur_fault = None, pending = [], terr = Some (TarErr ''bad header''), seen = []\<rparr>)"
    by (simp add: tarNext_def NewReader_def)
  have a': "tarNext (NewReader [Damaged (TarErr ''bad header'')])
     = (Inl (TarErr ''bad header''),
        \<lparr>cur = [], cur_fault = None, pending = [], terr = Some (TarErr ''bad header''), seen = []\<rparr>)"
    using a by simp
  have c: "Clean ''dir/'' = ''dir''" by code_simp
  note t = DirReader_defers_error_once[where s = "(\<lambda>a. NewReader [])(0 := NewReader [Damaged (TarErr ''bad header'')])"
        and t = 0 and dirHeader = "\<lparr>Name = ''dir/''\<rparr>" and p = 0 and len = 4, OF a]
  from t have t1: "DirReader 0 \<lparr>Name = ''dir/''\<rparr>
             ((\<lambda>a. NewReader [])(0 := NewReader [Damaged (TarErr ''bad header'')])) =
     (\<lparr>tr = 0, hdr = None, base = Clean (Name \<lparr>Name = ''dir/''\<rparr>), err = Some (TarErr ''bad header'')\<rparr>,
      ((\<lambda>a. NewReader [])(0 := NewReader [Damaged (TarErr ''bad header'')]))
        (0 := \<lparr>cur = [], cur_fault = None, pending = [], terr = Some (TarErr ''bad header''), seen = []\<rparr>))"
    by (rule conjunct1)
  from t show ?thesis
    by (simp add: t1 a' c)
qed

text \<open>
  A failed advance in the loop: the body of the current entry is exhausted and
  \<open>dr.tr.Next()\<close> returns an error.  \<open>Read\<close> returns that error and leaves a reader
  without a current header and without a deferred error, and any call on such a reader
  panics.
\<close>

lemma readLoop_failed_advance:
  assumes "hdr dr = Some h" and "Dir (Name h) = base dr"
    and "tarRead (s p) len = (([], Some EOF), rd)"
    and "tarNext ((s(p := rd)) (tr dr)) = (Inl e, rd')"
  shows "readLoop p dr len s =
           (Returns ([], Some e), dr\<lparr>hdr := None\<rparr>, s(p := rd, tr dr := rd'))"
  using assms by (subst readLoop.simps) simp

lemma Read_without_header_panics:
  assumes "Read p dr len s = (r, dr', s')" and "hdr dr' = None"
  shows "Read p dr' len' s' = (NilDeref, dr', s')"
  using Read_leaves_no_error[OF assms(1)] assms(2)
  by (simp add: Read_def readLoop_nil_header)

text \<open>
  Claim C3 says that after \<open>Read\<close> has returned an advance error met in the middle of
  the stream, every later call is well defined and returns end-of-stream or an error.
  The code stores the \<open>nil\<close> header that came with the error in \<open>dr.hdr\<close> and keeps
  no deferred error, so the next call reads \<open>dr.hdr.Name\<close> through \<open>nil\<close>.  Here the
  package's \<open>tr\<close> is the reader's own scanner, over \<open>dir/a\<close> followed by a damaged
  header: the first call returns the body, the second the scanner's error, the third
  panics.
\<close>

theorem Read_after_advance_error_panics:
  "(case DirReader 0 \<lparr>Name = ''dir/''\<rparr>
           ((\<lambda>a. NewReader [])
              (0 := NewReader [Entry ''dir/a'' [1, 2] None, Damaged (TarErr ''bad header'')])) of
      (dr, s) \<Rightarrow> fst (Reads 0 dr s [4, 4, 4]))
   = [Returns ([1, 2], None), Returns ([], Some (TarErr ''bad header'')), NilDeref]"
  by code_simp

text \<open>
  When the package's \<open>tr\<close> is another reader than the one the directory reader holds
  and has bytes of a body left, \<open>Read\<close> returns those bytes and leaves the reader's own
  scanner as it was.
\<close>

lemma Read_foreign_body:
  assumes "err dr = None" and "hdr dr = Some h" and "Dir (Name h) = base dr"
    and "p \<noteq> tr dr" and "terr (s p) = None" and "cur (s p) \<noteq> []" and "0 < len"
  shows "\<exists>e s'. Read p dr len s = (Returns (take len (cur (s p)), e), dr, s')
                \<and> s' (tr dr) = s (tr dr)"
  using assms
  by (subst Read_def, subst readLoop.simps)
     (auto simp: tarRead_def Let_def split: option.splits)

text \<open>
  Claim C10 says that \<open>Read\<close> takes the body bytes from the scanner stored in the
  reader, and from no other stream.  The code calls \<open>tr.Read(b)\<close>, not
  \<open>dr.tr.Read(b)\<close>.  With the reader built on the scanner at address 0 (current entry
  \<open>dir/a\<close>, body 1 2 3 4) and the package's \<open>tr\<close> at address 1 (current body 170 187),
  \<open>Read\<close> returns 170 187, the body of the other scanner, and consumes it there; the
  body of \<open>dir/a\<close> is untouched.
\<close>

theorem Read_takes_bytes_from_package_reader:
  "(case DirReader 0 \<lparr>Name = ''dir/''\<rparr>
           ((\<lambda>a. NewReader [])
              (0 := NewReader [Entry ''dir/a'' [1, 2, 3, 4] None],
               1 := snd (tarNext (NewReader [Entry ''x'' [170, 187] None])))) of
      (dr, s) \<Rightarrow>
        (case Read 1 dr 8 s of
           (r, dr', s') \<Rightarrow> (r, cur (s' 0), cur (s' 1))))
   = (Returns ([170, 187], None), [1, 2, 3, 4], [])"
  by code_simp

subsection \<open>The stream when the body is read from the reader's own scanner\<close>

text \<open>
  The lemmas of this subsection take the package's \<open>tr\<close> to be the reader's own
  scanner: the first argument of \<open>Read\<close> is the address \<open>t\<close> the reader holds.  Then
  a call with a non-empty buffer returns a non-empty piece of the rest of the stream, or
  \<open>io.EOF\<close> when nothing is left, and reading to the end yields exactly the bodies of
  the run of entries in the directory.
\<close>

lemma Read_body:
  assumes "positioned t dr s" "cur (s t) \<noteq> []" "0 < len"
  shows "Read t dr len s =
     (Returns (take len (cur (s t)), None), dr, s(t := (s t)\<lparr>cur := drop len (cur (s t))\<rparr>))"
  using assms
  by (subst Read_def, subst readLoop.simps)
     (auto simp: positioned_def tarRead_def Let_def split: option.splits)

lemma readLoop_advance:
  assumes "hdr dr = Some h" "Dir (Name h) = base dr" "tr dr = t"
    "terr (s t) = None" "cur_fault (s t) = None" "cur (s t) = []"
    "pending (s t) = Entry n b f # rest"
  shows "readLoop t dr len s =
     readLoop t (dr\<lparr>hdr := Some \<lparr>Name = n\<rparr>\<rparr>) len
       (s(t := (s t)\<lparr>cur := b, cur_fault := f, pending := rest, seen := seen (s t) @ [n]\<rparr>))"
  using assms
  by (subst readLoop.simps[of t dr]) (simp add: tarRead_def tarNext_def)

lemma readLoop_end:
  assumes "hdr dr = Some h" "Dir (Name h) = base dr" "tr dr = t"
    "terr (s t) = None" "cur_fault (s t) = None" "cur (s t) = []" "pending (s t) = []"
  shows "readLoop t dr len s =
     (Returns ([], Some EOF), dr\<lparr>hdr := None\<rparr>, s(t := (s t)\<lparr>cur := [], terr := Some EOF\<rparr>))"
  using assms
  by (subst readLoop.simps[of t dr]) (simp add: tarRead_def tarNext_def)

lemma Read_step:
  assumes len: "0 < len"
  shows "positioned t dr s \<Longrightarrow> pending (s t) = its \<Longrightarrow>
     \<exists>bs e dr' s'. Read t dr len s = (Returns (bs, e), dr', s') \<and> base dr' = base dr \<and>
        (if rest_bytes t dr s = [] then bs = [] \<and> e = Some EOF
         else bs \<noteq> [] \<and> e = None \<and> positioned t dr' s'
              \<and> rest_bytes t dr s = bs @ rest_bytes t dr' s')"
proof (induction its arbitrary: dr s)
  case Nil
  show ?case
  proof (cases "cur (s t) = []")
    case True
    from Nil obtain h where h: "hdr dr = Some h" "Dir (Name h) = base dr"
      by (auto simp: positioned_def split: option.splits)
    have "Read t dr len s =
      (Returns ([], Some EOF), dr\<lparr>hdr := None\<rparr>, s(t := (s t)\<lparr>cur := [], terr := Some EOF\<rparr>))"
      using Nil h True by (simp add: Read_def positioned_def readLoop_end[OF h])
    then show ?thesis using Nil True by (simp add: rest_bytes_def)
  next
    case False
    show ?thesis
      using Read_body[OF Nil(1) False len] Nil False len
      by (auto simp: rest_bytes_def positioned_def)
  qed
next
  case (Cons it rest)
  show ?case
  proof (cases "cur (s t) = []")
    case False
    show ?thesis
      using Read_body[OF Cons.prems(1) False len] Cons.prems False len
      by (auto simp: rest_bytes_def positioned_def)
  next
    case True
    from Cons.prems obtain h where h: "hdr dr = Some h" "Dir (Name h) = base dr"
      by (auto simp: positioned_def split: option.splits)
    from Cons.prems obtain n b f where it: "it = Entry n b f"
      by (cases it) (auto simp: positioned_def)
    let ?dr1 = "dr\<lparr>hdr := Some \<lparr>Name = n\<rparr>\<rparr>"
    let ?s1 = "s(t := (s t)\<lparr>cur := b, cur_fault := f, pending := rest, seen := seen (s t) @ [n]\<rparr>)"
    have adv: "Read t dr len s = readLoop t ?dr1 len ?s1"
      using Cons.prems True it
      by (simp add: Read_def positioned_def readLoop_advance[OF h, where n = n and b = b and f = f and rest = rest])
    show ?thesis
    proof (cases "Dir n = base dr")
      case False
      have "readLoop t ?dr1 len ?s1 = (Returns ([], Some EOF), ?dr1, ?s1)"
        using False by (intro readLoop_outside) auto
      then show ?thesis using adv Cons.prems True it False
        by (simp add: rest_bytes_def)
    next
      case inside: True
      have pos1: "positioned t ?dr1 ?s1"
        using Cons.prems it inside by (simp add: positioned_def)
      have rd1: "Read t ?dr1 len ?s1 = readLoop t ?dr1 len ?s1"
        using Cons.prems by (simp add: Read_def positioned_def)
      have rb: "rest_bytes t dr s = rest_bytes t ?dr1 ?s1"
        using Cons.prems True it inside by (simp add: rest_bytes_def)
      have p1: "pending (?s1 t) = rest" by simp
      have b1: "base ?dr1 = base dr" by simp
      note ih = Cons.IH[OF pos1 p1, unfolded rd1 rb[symmetric] b1]
      then show ?thesis unfolding adv .
    qed
  qed
qed

lemma readToEnd_own_scanner:
  assumes len: "0 < len"
  shows "positioned t dr s \<Longrightarrow> length (rest_bytes t dr s) < fuel \<Longrightarrow>
     \<exists>dr' s'. readToEnd fuel t dr len s acc =
        Some (Returns (acc @ rest_bytes t dr s, EOF), dr', s')"
proof (induction fuel arbitrary: dr s acc)
  case 0
  then show ?case by simp
next
  case (Suc fuel)
  from Read_step[OF len Suc.prems(1) refl]
  obtain bs e dr' s' where r: "Read t dr len s = (Returns (bs, e), dr', s')"
    and c: "if rest_bytes t dr s = [] then bs = [] \<and> e = Some EOF
         else bs \<noteq> [] \<and> e = None \<and> positioned t dr' s'
              \<and> rest_bytes t dr s = bs @ rest_bytes t dr' s'"
    by blast
  show ?case
  proof (cases "rest_bytes t dr s = []")
    case True
    then show ?thesis using r c by simp
  next
    case False
    with c have c': "bs \<noteq> []" "e = None" "positioned t dr' s'"
      "rest_bytes t dr s = bs @ rest_bytes t dr' s'" by simp_all
    have "length (rest_bytes t dr' s') < fuel"
      using Suc.prems(2) c' by (cases bs) simp_all
    from Suc.IH[OF c'(3) this, of "acc @ bs"] show ?thesis
      using r c' by simp
  qed
qed


lemma Dir_examples:
  "Dir ''dir/a'' = ''dir''" "Dir ''dir/b'' = ''dir''" "Dir ''other/c'' = ''other''"
  "Dir ''dir/sub/x'' = ''dir/sub''" "Clean ''dir'' = ''dir''" "Clean ''dir/'' = ''dir''"
  by code_simp+

lemma own_scanner_dir_a_b_c:
  assumes "0 < len" and "length a + length b < fuel"
    and "s t = NewReader (Entry ''dir/a'' a None # Entry ''dir/b'' b None
                            # Entry ''other/c'' c f # others)"
  shows "\<exists>dr' s'. (case DirReader t \<lparr>Name = ''dir''\<rparr> s of
                     (dr, s1) \<Rightarrow> readToEnd fuel t dr len s1 [])
                  = Some (Returns (a @ b, EOF), dr', s')"
proof -
  let ?rd = "\<lparr>cur = a, cur_fault = None,
             pending = Entry ''dir/b'' b None # Entry ''other/c'' c f # others,
             terr = None, seen = [''dir/a'']\<rparr>"
  let ?dr = "\<lparr>tr = t, hdr = Some \<lparr>Name = ''dir/a''\<rparr>, base = ''dir'', err = None\<rparr>"
  have d: "DirReader t \<lparr>Name = ''dir''\<rparr> s = (?dr, s(t := ?rd))"
    using assms(3) by (simp add: DirReader_def tarNext_def NewReader_def Dir_examples)
  have pos: "positioned t ?dr (s(t := ?rd))"
    by (simp add: positioned_def Dir_examples)
  have rb: "rest_bytes t ?dr (s(t := ?rd)) = a @ b"
    by (simp add: rest_bytes_def Dir_examples)
  have fu: "length (rest_bytes t ?dr (s(t := ?rd))) < fuel"
    unfolding rb using assms(2) by simp
  from readToEnd_own_scanner[OF assms(1) pos fu, of "[]"]
  show ?thesis unfolding d rb by simp
qed

lemma own_scanner_dir_a_sub_x:
  assumes "0 < len" and "length a < fuel"
    and "s t = NewReader (Entry ''dir/a'' a None # Entry ''dir/sub/x'' x f # others)"
  shows "\<exists>dr' s'. (case DirReader t \<lparr>Name = ''dir''\<rparr> s of
                     (dr, s1) \<Rightarrow> readToEnd fuel t dr len s1 [])
                  = Some (Returns (a, EOF), dr', s')"
proof -
  let ?rd = "\<lparr>cur = a, cur_fault = None,
             pending = Entry ''dir/sub/x'' x f # others,
             terr = None, seen = [''dir/a'']\<rparr>"
  let ?dr = "\<lparr>tr = t, hdr = Some \<lparr>Name = ''dir/a''\<rparr>, base = ''dir'', err = None\<rparr>"
  have d: "DirReader t \<lparr>Name = ''dir''\<rparr> s = (?dr, s(t := ?rd))"
    using assms(3) by (simp add: DirReader_def tarNext_def NewReader_def Dir_examples)
  have pos: "positioned t ?dr (s(t := ?rd))"
    by (simp add: positioned_def Dir_examples)
  have rb: "rest_bytes t ?dr (s(t := ?rd)) = a"
    by (simp add: rest_bytes_def Dir_examples)
  have fu: "length (rest_bytes t ?dr (s(t := ?rd))) < fuel"
    unfolding rb using assms(2) by simp
  from readToEnd_own_scanner[OF assms(1) pos fu, of "[]"]
  show ?thesis unfolding d rb by simp
qed

subsection \<open>The stream as the code reads it\<close>

text \<open>
  Claim C4 says that over \<open>dir/a\<close> (4 bytes), \<open>dir/b\<close> (6 bytes), \<open>other/c\<close> the
  reader opened on \<open>dir\<close> yields the 10 bytes of the two bodies and then end-of-stream.
  That is so when the body is read from the reader's own scanner
  (\<open>own_scanner_dir_a_b_c\<close>).  Through the defect of claim C10 the bytes are those of
  the package's \<open>tr\<close>: with that reader on another archive (current body 170 187),
  reading to the end yields those 2 bytes and then end-of-stream, and none of the 10
  bytes of \<open>dir/a\<close> and \<open>dir/b\<close>.
\<close>

theorem readToEnd_foreign_bytes:
  "(case DirReader 0 \<lparr>Name = ''dir/''\<rparr>
           ((\<lambda>a. NewReader [])
              (0 := NewReader [Entry ''dir/a'' [1, 2, 3, 4] None,
                               Entry ''dir/b'' [5, 6, 7, 8, 9, 10] None,
                               Entry ''other/c'' [11] None],
               1 := snd (tarNext (NewReader [Entry ''x'' [170, 187] None])))) of
      (dr, s) \<Rightarrow> map_option fst (readToEnd 20 1 dr 512 s []))
   = Some (Returns ([170, 187], EOF))"
  by code_simp

text \<open>
  Claim C7 says that over \<open>dir/a\<close>, \<open>dir/sub/x\<close> the reader opened on \<open>dir\<close> returns
  the body of \<open>dir/a\<close> and then end-of-stream.  That is so when the body is read from
  the reader's own scanner (\<open>own_scanner_dir_a_sub_x\<close>), and no call goes past
  \<open>dir/sub/x\<close> (\<open>readLoop_outside\<close>).  But through the defect of claim C10 the body of
  \<open>dir/a\<close> is not what is returned: with the package's \<open>tr\<close> on an empty archive, reading to the end
  yields no byte at all before end-of-stream.
\<close>

theorem readToEnd_nested_foreign_bytes:
  "(case DirReader 0 \<lparr>Name = ''dir''\<rparr>
           ((\<lambda>a. NewReader [])
              (0 := NewReader [Entry ''dir/a'' [1, 2, 3] None,
                               Entry ''dir/sub/x'' [4, 5] None],
               1 := NewReader [])) of
      (dr, s) \<Rightarrow> map_option fst (readToEnd 20 1 dr 512 s []))
   = Some (Returns ([], EOF))"
  by code_simp

end
